theory Spec2Isabelle
  imports Main
begin

section \<open>Data model of \<open>cms/db/contest.py\<close>\<close>

text \<open>
  SQLAlchemy \<open>DateTime\<close> columns hold naive Python \<open>datetime\<close> values and \<open>Interval\<close>
  columns hold \<open>timedelta\<close> values. Both have a resolution of one microsecond, so a
  \<open>datetime\<close> is modelled as the integer number of microseconds since 1970-01-01 00:00:00
  and a \<open>timedelta\<close> as an integer number of microseconds. Comparison and subtraction of
  the Python values are then comparison and subtraction of integers, and
  \<open>timedelta // timedelta\<close> is the floor division \<open>div\<close> on \<open>int\<close>.
\<close>

type_synonym datetime = int
type_synonym timedelta = int

definition seconds :: "int \<Rightarrow> timedelta" where
  "seconds n = n * 1000000"

definition minutes :: "int \<Rightarrow> timedelta" where
  "minutes n = seconds (60 * n)"

text \<open>The three values of the \<open>token_mode\<close> enumeration column.\<close>

datatype token_mode = TOKEN_MODE_DISABLED | TOKEN_MODE_FINITE | TOKEN_MODE_INFINITE

text \<open>
  The row of table \<open>contests\<close>: every column of class \<open>Contest\<close> that takes part in the
  schedule, in the token rules or in a \<open>CheckConstraint\<close> of the file. A column declared
  \<open>nullable=True\<close> is an \<open>option\<close> (\<open>None\<close> is SQL \<open>NULL\<close>); a column declared
  \<open>nullable=False\<close> always holds a value. The remaining columns (name, description,
  language lists, the boolean switches, timezone) and the relationships carry no check
  in this file and are read by no method of the class.
\<close>

record contest =
  token_mode :: token_mode
  token_max_number :: "int option"
  token_min_interval :: timedelta
  token_gen_initial :: int
  token_gen_number :: int
  token_gen_interval :: timedelta
  token_gen_max :: "int option"
  start :: datetime
  stop :: datetime
  analysis_enabled :: bool
  analysis_start :: datetime
  analysis_stop :: datetime
  per_user_time :: "timedelta option"
  max_submission_number :: "int option"
  max_user_test_number :: "int option"
  min_submission_interval :: "timedelta option"
  min_user_test_interval :: "timedelta option"
  score_precision :: int

text \<open>
  The column defaults of the class: \<open>datetime(2025, 1, 1)\<close> is 1735689600 seconds and
  \<open>datetime(2030, 1, 1)\<close> is 1893456000 seconds after 1970-01-01; a nullable column
  without a default is \<open>NULL\<close>.
\<close>

definition default_contest :: contest where
  "default_contest =
     \<lparr> token_mode = TOKEN_MODE_INFINITE,
       token_max_number = None,
       token_min_interval = 0,
       token_gen_initial = 2,
       token_gen_number = 2,
       token_gen_interval = minutes 30,
       token_gen_max = None,
       start = seconds 1735689600,
       stop = seconds 1735689600,
       analysis_enabled = False,
       analysis_start = seconds 1893456000,
       analysis_stop = seconds 1893456000,
       per_user_time = None,
       max_submission_number = None,
       max_user_test_number = None,
       min_submission_interval = None,
       min_user_test_interval = None,
       score_precision = 0 \<rparr>"

section \<open>The method \<open>Contest.phase\<close>\<close>

text \<open>
  A method call is modelled with explicit state passing: it takes the object \<open>self\<close> and
  the argument, and returns the returned value together with the object as it is after
  the call. Each \<open>return\<close> of the source is one branch; the body assigns to no attribute,
  so every branch hands back \<open>self\<close>. The nesting follows the source: the inner
  \<open>if\<close>/\<open>elif\<close> under \<open>if self.analysis_enabled\<close> falls through to \<open>return 3\<close>.
\<close>

definition phase_call :: "contest \<Rightarrow> datetime \<Rightarrow> int \<times> contest" where
  "phase_call self timestamp =
     (if timestamp < start self then (- 1, self)
      else if timestamp \<le> stop self then (0, self)
      else if analysis_enabled self then
        (if timestamp < analysis_start self then (1, self)
         else if timestamp \<le> analysis_stop self then (2, self)
         else (3, self))
      else (3, self))"

text \<open>The value returned by \<open>self.phase(timestamp)\<close>.\<close>

definition phase :: "contest \<Rightarrow> datetime \<Rightarrow> int" where
  "phase self timestamp = fst (phase_call self timestamp)"

section \<open>The phase classification as the specification words it\<close>

text \<open>
  The five named phases of the specification, and the integer by which the docstring of
  \<open>Contest.phase\<close> encodes each of them.
\<close>

datatype Phase =
  BeforeContest
  | ContestActive
  | AfterContestBeforeAnalysis
  | AnalysisActive
  | AfterAnalysisOrDisabled

fun phase_code :: "Phase \<Rightarrow> int" where
  "phase_code BeforeContest = - 1"
| "phase_code ContestActive = 0"
| "phase_code AfterContestBeforeAnalysis = 1"
| "phase_code AnalysisActive = 2"
| "phase_code AfterAnalysisOrDisabled = 3"

text \<open>The six-step contract of the specification, step by step, in its order.\<close>

definition phase_spec :: "contest \<Rightarrow> datetime \<Rightarrow> Phase" where
  "phase_spec s timestamp =
     (if timestamp < start s then BeforeContest
      else if timestamp \<le> stop s then ContestActive
      else if \<not> analysis_enabled s then AfterAnalysisOrDisabled
      else if timestamp < analysis_start s then AfterContestBeforeAnalysis
      else if timestamp \<le> analysis_stop s then AnalysisActive
      else AfterAnalysisOrDisabled)"

text \<open>
  The ordering invariant of a schedule: the first three \<open>CheckConstraint\<close>s of
  \<open>__table_args__\<close>.
\<close>

definition ordering_invariant :: "contest \<Rightarrow> bool" where
  "ordering_invariant s \<longleftrightarrow>
     start s \<le> stop s \<and> stop s \<le> analysis_start s \<and> analysis_start s \<le> analysis_stop s"

text \<open>
  The stretch of the timeline that belongs to each phase, written as intervals of the
  schedule's boundaries. A boundary shared by two windows belongs to the earlier phase, so
  the analysis window excludes the instant \<open>stop\<close>. Without analysis mode the two
  analysis phases have no stretch and everything after \<open>stop\<close> is the last phase.
\<close>

fun in_phase_range :: "contest \<Rightarrow> Phase \<Rightarrow> datetime \<Rightarrow> bool" where
  "in_phase_range s BeforeContest t \<longleftrightarrow> t < start s"
| "in_phase_range s ContestActive t \<longleftrightarrow> start s \<le> t \<and> t \<le> stop s"
| "in_phase_range s AfterContestBeforeAnalysis t \<longleftrightarrow>
     analysis_enabled s \<and> stop s < t \<and> t < analysis_start s"
| "in_phase_range s AnalysisActive t \<longleftrightarrow>
     analysis_enabled s \<and> stop s < t \<and> analysis_start s \<le> t \<and> t \<le> analysis_stop s"
| "in_phase_range s AfterAnalysisOrDisabled t \<longleftrightarrow>
     (if analysis_enabled s then analysis_stop s < t else stop s < t)"

section \<open>Acceptance of a row: the \<open>CheckConstraint\<close>s\<close>

text \<open>
  A contest configuration comes into existence when its row is written to the table, and
  the database rejects the write when a \<open>CHECK\<close> constraint evaluates to false. A
  \<open>CHECK\<close> whose expression involves a \<open>NULL\<close> evaluates to unknown and is satisfied,
  so a constraint on a nullable column binds only when the column is set.
\<close>

definition check_set :: "'a option \<Rightarrow> ('a \<Rightarrow> bool) \<Rightarrow> bool" where
  "check_set column holds = (case column of None \<Rightarrow> True | Some v \<Rightarrow> holds v)"

text \<open>
  All \<open>CheckConstraint\<close>s of class \<open>Contest\<close>: the four of \<open>__table_args__\<close>, then those
  of the columns in the order of the file.
\<close>

definition check_constraints :: "contest \<Rightarrow> bool" where
  "check_constraints c \<longleftrightarrow>
     start c \<le> stop c \<and>
     stop c \<le> analysis_start c \<and>
     analysis_start c \<le> analysis_stop c \<and>
     check_set (token_gen_max c) (\<lambda>m. token_gen_initial c \<le> m) \<and>
     check_set (token_max_number c) (\<lambda>n. n > 0) \<and>
     token_min_interval c \<ge> seconds 0 \<and>
     token_gen_initial c \<ge> 0 \<and>
     token_gen_number c \<ge> 0 \<and>
     token_gen_interval c > seconds 0 \<and>
     check_set (token_gen_max c) (\<lambda>m. m > 0) \<and>
     check_set (per_user_time c) (\<lambda>d. d \<ge> seconds 0) \<and>
     check_set (max_submission_number c) (\<lambda>n. n > 0) \<and>
     check_set (max_user_test_number c) (\<lambda>n. n > 0) \<and>
     check_set (min_submission_interval c) (\<lambda>d. d > seconds 60) \<and>
     check_set (min_user_test_interval c) (\<lambda>d. d > seconds 0) \<and>
     score_precision c \<ge> 0"

datatype error = IntegrityError | ZeroDivisionError

text \<open>Writing the row: it is stored unchanged, or the write fails.\<close>

definition insert_contest :: "contest \<Rightarrow> error + contest" where
  "insert_contest c = (if check_constraints c then Inr c else Inl IntegrityError)"

section \<open>The token ledger\<close>

text \<open>
  The token policy of the specification, and the columns of a contest it is read from.
\<close>

record TokenPolicy =
  mode :: token_mode
  genInitial :: int
  genNumber :: int
  genInterval :: timedelta
  genMax :: "int option"
  maxTotalNumber :: "int option"
  minInterval :: timedelta

definition token_policy :: "contest \<Rightarrow> TokenPolicy" where
  "token_policy c =
     \<lparr> mode = token_mode c,
       genInitial = token_gen_initial c,
       genNumber = token_gen_number c,
       genInterval = token_gen_interval c,
       genMax = token_gen_max c,
       maxTotalNumber = token_max_number c,
       minInterval = token_min_interval c \<rparr>"

datatype token_count = Count int | Infinite

text \<open>
  Modelled from the spec: the operation \<open>availableTokens\<close> of section 4.2; the function
  that computes a participant's token balance is not among the source files. The usage
  history is the list of past spend timestamps, oldest first. For a finite policy:
  \<open>k\<close> is the number of whole intervals elapsed, clamped to be non-negative; the grants
  are \<open>genInitial + k * genNumber\<close>, capped at \<open>genMax\<close> when it is set; the spends are
  the length of the history; the balance is the grants less the spends, never below
  zero, and when \<open>maxTotalNumber\<close> is set it is at most what is left of the lifetime
  budget, and zero once the spends reach it. The quotient by an interval of zero is
  undefined, which the model reports as \<open>ZeroDivisionError\<close>.
\<close>

definition elapsed_intervals :: "TokenPolicy \<Rightarrow> datetime \<Rightarrow> datetime \<Rightarrow> int" where
  "elapsed_intervals policy contestStart now =
     max 0 ((now - contestStart) div genInterval policy)"

definition grants :: "TokenPolicy \<Rightarrow> datetime \<Rightarrow> datetime \<Rightarrow> int" where
  "grants policy contestStart now =
     (let G = genInitial policy + elapsed_intervals policy contestStart now * genNumber policy
      in case genMax policy of None \<Rightarrow> G | Some m \<Rightarrow> min G m)"

definition availableTokens ::
  "TokenPolicy \<Rightarrow> datetime list \<Rightarrow> datetime \<Rightarrow> datetime \<Rightarrow> error + token_count" where
  "availableTokens policy history contestStart now =
     (case mode policy of
        TOKEN_MODE_DISABLED \<Rightarrow> Inr (Count 0)
      | TOKEN_MODE_INFINITE \<Rightarrow> Inr Infinite
      | TOKEN_MODE_FINITE \<Rightarrow>
          if genInterval policy = 0 then Inl ZeroDivisionError
          else
            let G = grants policy contestStart now;
                S = int (length history);
                A = max 0 (G - S)
            in case maxTotalNumber policy of
                 None \<Rightarrow> Inr (Count A)
               | Some M \<Rightarrow> if S \<ge> M then Inr (Count 0) else Inr (Count (min A (M - S))))"

datatype reason = Disabled | NoTokensAvailable | TooSoonAfterLastSpend | NoReason

text \<open>
  Modelled from the spec: the operation \<open>canSpendNow\<close> of section 4.2, absent from the
  source files like \<open>availableTokens\<close>. The four steps in their order; the verdict is the
  pair of \<open>allowed\<close> and the reason, \<open>NoReason\<close> standing for the specification's
  \<open>None\<close>. The last spend is the last element of the history, read only when the
  history is not empty.
\<close>

definition canSpendNow ::
  "TokenPolicy \<Rightarrow> datetime list \<Rightarrow> datetime \<Rightarrow> datetime \<Rightarrow> error + (bool \<times> reason)" where
  "canSpendNow policy history contestStart now =
     (if mode policy = TOKEN_MODE_DISABLED then Inr (False, Disabled)
      else case availableTokens policy history contestStart now of
             Inl e \<Rightarrow> Inl e
           | Inr available \<Rightarrow>
               if available = Count 0 then Inr (False, NoTokensAvailable)
               else if history \<noteq> [] \<and> now - last history < minInterval policy
                 then Inr (False, TooSoonAfterLastSpend)
               else Inr (True, NoReason))"

text \<open>
  A schedule for concrete evaluations: the default row with the five schedule columns
  set.
\<close>

abbreviation schedule :: "datetime \<Rightarrow> datetime \<Rightarrow> bool \<Rightarrow> datetime \<Rightarrow> datetime \<Rightarrow> contest" where
  "schedule a b e c d \<equiv>
     default_contest\<lparr>start := a, stop := b, analysis_enabled := e,
       analysis_start := c, analysis_stop := d\<rparr>"

section \<open>Properties of \<open>Contest.phase\<close>\<close>

lemma phase_eq_spec: "phase s t = phase_code (phase_spec s t)"
  by (simp add: phase_def phase_call_def phase_spec_def)

lemma phase_values: "phase s t = - 1 \<or> phase s t = 0 \<or> phase s t = 1 \<or> phase s t = 2 \<or> phase s t = 3"
  by (simp add: phase_def phase_call_def)

lemma phase_code_inj: "phase_code p = phase_code q \<longleftrightarrow> p = q"
  by (cases p; cases q) simp_all

lemma phase_mono_any: "t1 \<le> t2 \<Longrightarrow> phase s t1 \<le> phase s t2"
  by (simp add: phase_def phase_call_def)

section \<open>Properties of the token ledger and of row acceptance\<close>

lemma available_finite:
  assumes "mode p = TOKEN_MODE_FINITE" and "genInterval p \<noteq> 0"
  shows "availableTokens p h cs now =
         Inr (Count
           (case maxTotalNumber p of
              None \<Rightarrow> max 0 (grants p cs now - int (length h))
            | Some M \<Rightarrow>
                if int (length h) \<ge> M then 0
                else min (max 0 (grants p cs now - int (length h))) (M - int (length h))))"
  using assms by (simp add: availableTokens_def Let_def split: option.splits)

lemma spend_decrements:
  assumes fin: "mode p = TOKEN_MODE_FINITE"
    and bal: "availableTokens p h cs now = Inr (Count n)" and pos: "0 < n"
  shows "availableTokens p (h @ [u]) cs now = Inr (Count (n - 1))"
proof -
  have nz: "genInterval p \<noteq> 0"
    using fin bal by (auto simp add: availableTokens_def)
  show ?thesis
  proof (cases "maxTotalNumber p")
    case None
    with fin nz bal pos show ?thesis
      by (simp add: available_finite)
  next
    case (Some M)
    with fin nz bal pos show ?thesis
      by (auto simp add: available_finite min_def max_def split: if_splits)
  qed
qed

lemma available_total:
  assumes "mode p = TOKEN_MODE_FINITE \<Longrightarrow> genInterval p \<noteq> 0"
  shows "\<exists>n. availableTokens p h cs now = Inr n"
proof (cases "mode p")
  case TOKEN_MODE_FINITE
  with assms show ?thesis by (simp add: available_finite)
qed (simp_all add: availableTokens_def)

lemma canSpendNow_total:
  assumes "mode p = TOKEN_MODE_FINITE \<Longrightarrow> genInterval p \<noteq> 0"
  shows "\<exists>v. canSpendNow p h cs now = Inr v"
proof -
  obtain n where "availableTokens p h cs now = Inr n"
    using available_total [OF assms] by blast
  then show ?thesis by (auto simp add: canSpendNow_def)
qed

lemma accepted_row:
  assumes "insert_contest c = Inr c'"
  shows "check_constraints c" and "c' = c"
  using assms by (simp_all add: insert_contest_def split: if_splits)

lemma default_contest_accepted: "insert_contest default_contest = Inr default_contest"
  by (simp add: insert_contest_def check_constraints_def check_set_def default_contest_def
      minutes_def seconds_def)

section \<open>The claims\<close>

text \<open>
  Claim C1. For a schedule that satisfies the ordering invariant and any timestamp, the
  value returned by \<open>phase\<close> is the code of the phase that the six steps of the
  specification select, taken in their order. The closing boundaries are inclusive: at
  exactly \<open>start\<close> and at exactly \<open>stop\<close> the contest is active. After \<open>stop\<close> the
  result is the last phase when analysis mode is off; otherwise it is
  after-contest-before-analysis before \<open>analysis_start\<close>, analysis-active up to and
  including \<open>analysis_stop\<close>, and the last phase later.
\<close>

theorem phase_follows_decision_order:
  assumes "ordering_invariant s"
  shows "phase s t = phase_code (phase_spec s t) \<and>
         (t < start s \<longrightarrow> phase s t = phase_code BeforeContest) \<and>
         (start s \<le> t \<and> t \<le> stop s \<longrightarrow> phase s t = phase_code ContestActive) \<and>
         phase s (start s) = phase_code ContestActive \<and>
         phase s (stop s) = phase_code ContestActive \<and>
         (stop s < t \<longrightarrow>
            phase s t =
              (if \<not> analysis_enabled s then phase_code AfterAnalysisOrDisabled
               else if t < analysis_start s then phase_code AfterContestBeforeAnalysis
               else if t \<le> analysis_stop s then phase_code AnalysisActive
               else phase_code AfterAnalysisOrDisabled))"
  using assms by (simp add: phase_eq_spec phase_spec_def ordering_invariant_def)

theorem phase_follows_decision_order_witness:
  "ordering_invariant (schedule 100 200 True 300 400) \<and>
   phase (schedule 100 200 True 300 400) 250 =
     phase_code (phase_spec (schedule 100 200 True 300 400) 250) \<and>
   phase (schedule 100 200 True 300 400) 100 = phase_code ContestActive \<and>
   phase (schedule 100 200 True 300 400) 200 = phase_code ContestActive \<and>
   (200::int) < 250 \<and>
   phase (schedule 100 200 True 300 400) 250 = phase_code AfterContestBeforeAnalysis"
proof -
  have inv: "ordering_invariant (schedule 100 200 True 300 400)"
    by (simp add: ordering_invariant_def)
  show ?thesis
    using inv phase_follows_decision_order [OF inv, of 250] by simp
qed

text \<open>
  Claim C2. For a schedule that satisfies the ordering invariant and any timestamp,
  \<open>phase\<close> returns the code of one of the five phases, and the five stretches of the
  timeline partition it: the timestamp lies in the stretch of a phase exactly when
  \<open>phase\<close> returns that phase, and it lies in the stretch of exactly one phase (no gap,
  no overlap).
\<close>

theorem phase_ranges_partition_timeline:
  assumes "ordering_invariant s"
  shows "(\<exists>p. phase s t = phase_code p) \<and>
         (in_phase_range s p t \<longleftrightarrow> phase s t = phase_code p) \<and>
         (\<exists>!q. in_phase_range s q t)"
proof -
  have code: "phase s t = phase_code (phase_spec s t)"
    by (rule phase_eq_spec)
  have iff: "in_phase_range s q t \<longleftrightarrow> phase_spec s t = q" for q
    using assms by (cases q) (auto simp add: phase_spec_def ordering_invariant_def)
  have "\<exists>p. phase s t = phase_code p"
    using code by blast
  moreover have "in_phase_range s p t \<longleftrightarrow> phase s t = phase_code p"
    by (simp add: iff code phase_code_inj)
  moreover have "\<exists>!q. in_phase_range s q t"
    by (simp add: iff)
  ultimately show ?thesis by blast
qed

theorem phase_ranges_partition_timeline_witness:
  "ordering_invariant (schedule 100 200 True 200 400) \<and>
   in_phase_range (schedule 100 200 True 200 400) ContestActive 200 \<and>
   \<not> in_phase_range (schedule 100 200 True 200 400) AnalysisActive 200 \<and>
   phase (schedule 100 200 True 200 400) 200 = phase_code ContestActive \<and>
   (\<exists>!q. in_phase_range (schedule 100 200 True 200 400) q 200)"
proof -
  have inv: "ordering_invariant (schedule 100 200 True 200 400)"
    by (simp add: ordering_invariant_def)
  have act: "in_phase_range (schedule 100 200 True 200 400) ContestActive 200"
    by simp
  have ana: "\<not> in_phase_range (schedule 100 200 True 200 400) AnalysisActive 200"
    by simp
  show ?thesis
    using inv act ana
      phase_ranges_partition_timeline [OF inv, of 200 ContestActive]
    by blast
qed

text \<open>
  Claim C3. For a fixed schedule that satisfies the ordering invariant, the phase is
  monotone in the timestamp: from \<open>t1 \<le> t2\<close> follows \<open>phase s t1 \<le> phase s t2\<close>, where
  the returned integers order the phases as BeforeContest, ContestActive,
  AfterContestBeforeAnalysis, AnalysisActive, AfterAnalysisOrDisabled.
\<close>

theorem phase_monotone:
  assumes "ordering_invariant s" and "t1 \<le> t2"
  shows "phase s t1 \<le> phase s t2 \<and>
         phase_code (phase_spec s t1) \<le> phase_code (phase_spec s t2)"
  using assms(2) phase_mono_any [of t1 t2 s] by (simp add: phase_eq_spec)

theorem phase_monotone_witness:
  "ordering_invariant (schedule 100 200 True 300 400) \<and> (150::int) \<le> 350 \<and>
   phase (schedule 100 200 True 300 400) 150 \<le> phase (schedule 100 200 True 300 400) 350 \<and>
   phase (schedule 100 200 True 300 400) 150 = 0 \<and>
   phase (schedule 100 200 True 300 400) 350 = 2"
proof -
  have inv: "ordering_invariant (schedule 100 200 True 300 400)"
    by (simp add: ordering_invariant_def)
  have le: "(150::int) \<le> 350" by simp
  have v1: "phase (schedule 100 200 True 300 400) 150 = 0"
    by (simp add: phase_def phase_call_def)
  have v2: "phase (schedule 100 200 True 300 400) 350 = 2"
    by (simp add: phase_def phase_call_def)
  show ?thesis
    using inv le v1 v2 phase_monotone [OF inv le] by blast
qed

text \<open>
  Claim C4. When analysis mode is off, \<open>phase\<close> never returns
  AfterContestBeforeAnalysis (1) and never returns AnalysisActive (2), whatever the
  schedule and the timestamp.
\<close>

theorem phase_without_analysis:
  assumes "\<not> analysis_enabled s"
  shows "phase s t \<noteq> phase_code AfterContestBeforeAnalysis \<and>
         phase s t \<noteq> phase_code AnalysisActive"
  using assms by (simp add: phase_def phase_call_def)

theorem phase_without_analysis_witness:
  "\<not> analysis_enabled (schedule 100 200 False 300 400) \<and>
   phase (schedule 100 200 False 300 400) 350 \<noteq> phase_code AfterContestBeforeAnalysis \<and>
   phase (schedule 100 200 False 300 400) 350 \<noteq> phase_code AnalysisActive \<and>
   phase (schedule 100 200 False 300 400) 350 = 3"
proof -
  have off: "\<not> analysis_enabled (schedule 100 200 False 300 400)"
    by simp
  have v: "phase (schedule 100 200 False 300 400) 350 = 3"
    by (simp add: phase_def phase_call_def)
  show ?thesis
    using off v phase_without_analysis [OF off, of 350] by blast
qed

text \<open>
  Claim C9. \<open>phase\<close> is total and does not look at the ordering invariant: for every
  schedule, ordered or not, and every timestamp it returns one of the integers -1, 0, 1,
  2, 3, each the code of one of the five phases.
\<close>

theorem phase_total:
  "phase s t \<in> {- 1, 0, 1, 2, 3} \<and> (\<exists>p. phase s t = phase_code p)"
proof -
  have "phase s t = phase_code (phase_spec s t)"
    by (rule phase_eq_spec)
  then have "\<exists>p. phase s t = phase_code p" by blast
  moreover have "phase s t \<in> {- 1, 0, 1, 2, 3}"
    using phase_values [of s t] by auto
  ultimately show ?thesis by simp
qed

text \<open>
  Claim C5. For a policy in finite mode (with an interval that is not zero) the number of
  elapsed intervals is the floor of \<open>(now - contestStart) / genInterval\<close>, clamped to be
  non-negative; the grants are \<open>genInitial + k * genNumber\<close>, capped at \<open>genMax\<close> when it
  is set and uncapped when it is not; without a lifetime cap the balance is the grants
  less the number of spends, never below zero; and recording one more spend on a positive
  balance lowers it by exactly one. With \<open>genInitial = 2\<close>, \<open>genNumber = 2\<close>, an interval
  of 30 minutes and no caps, the balance with an empty history is 2 at the contest start
  and 4 at 31 minutes after it, and with one recorded spend it is 1 and 3.
\<close>

theorem finite_available_tokens:
  assumes "mode p = TOKEN_MODE_FINITE" and "genInterval p \<noteq> 0"
  shows "elapsed_intervals p cs now = max 0 ((now - cs) div genInterval p) \<and>
         grants p cs now =
           (case genMax p of
              None \<Rightarrow> genInitial p + elapsed_intervals p cs now * genNumber p
            | Some m \<Rightarrow> min (genInitial p + elapsed_intervals p cs now * genNumber p) m) \<and>
         (maxTotalNumber p = None \<longrightarrow>
            availableTokens p h cs now =
              Inr (Count (max 0 (grants p cs now - int (length h))))) \<and>
         (availableTokens p h cs now = Inr (Count n) \<and> 0 < n \<longrightarrow>
            availableTokens p (h @ [u]) cs now = Inr (Count (n - 1))) \<and>
         (genInitial p = 2 \<and> genNumber p = 2 \<and> genInterval p = minutes 30 \<and>
          genMax p = None \<and> maxTotalNumber p = None \<longrightarrow>
            availableTokens p [] cs cs = Inr (Count 2) \<and>
            availableTokens p [] cs (cs + minutes 31) = Inr (Count 4) \<and>
            availableTokens p [u] cs cs = Inr (Count 1) \<and>
            availableTokens p [u] cs (cs + minutes 31) = Inr (Count 3))"
proof -
  have k: "elapsed_intervals p cs now = max 0 ((now - cs) div genInterval p)"
    by (simp add: elapsed_intervals_def)
  have g: "grants p cs now =
           (case genMax p of
              None \<Rightarrow> genInitial p + elapsed_intervals p cs now * genNumber p
            | Some m \<Rightarrow> min (genInitial p + elapsed_intervals p cs now * genNumber p) m)"
    by (simp add: grants_def Let_def)
  have a: "maxTotalNumber p = None \<longrightarrow>
            availableTokens p h cs now =
              Inr (Count (max 0 (grants p cs now - int (length h))))"
    using assms by (simp add: available_finite)
  have d: "availableTokens p h cs now = Inr (Count n) \<and> 0 < n \<longrightarrow>
            availableTokens p (h @ [u]) cs now = Inr (Count (n - 1))"
    using assms(1) spend_decrements [of p h cs now n u] by blast
  have c: "genInitial p = 2 \<and> genNumber p = 2 \<and> genInterval p = minutes 30 \<and>
          genMax p = None \<and> maxTotalNumber p = None \<longrightarrow>
            availableTokens p [] cs cs = Inr (Count 2) \<and>
            availableTokens p [] cs (cs + minutes 31) = Inr (Count 4) \<and>
            availableTokens p [u] cs cs = Inr (Count 1) \<and>
            availableTokens p [u] cs (cs + minutes 31) = Inr (Count 3)"
    using assms
    by (simp add: available_finite grants_def elapsed_intervals_def minutes_def seconds_def)
  from k g a d c show ?thesis by blast
qed

theorem finite_available_tokens_witness:
  "mode (token_policy (default_contest\<lparr>token_mode := TOKEN_MODE_FINITE\<rparr>)) = TOKEN_MODE_FINITE \<and>
   genInterval (token_policy (default_contest\<lparr>token_mode := TOKEN_MODE_FINITE\<rparr>)) \<noteq> 0 \<and>
   availableTokens (token_policy (default_contest\<lparr>token_mode := TOKEN_MODE_FINITE\<rparr>))
     [] 0 0 = Inr (Count 2) \<and>
   availableTokens (token_policy (default_contest\<lparr>token_mode := TOKEN_MODE_FINITE\<rparr>))
     [] 0 (0 + minutes 31) = Inr (Count 4) \<and>
   availableTokens (token_policy (default_contest\<lparr>token_mode := TOKEN_MODE_FINITE\<rparr>))
     [0] 0 0 = Inr (Count 1) \<and>
   availableTokens (token_policy (default_contest\<lparr>token_mode := TOKEN_MODE_FINITE\<rparr>))
     [0] 0 (0 + minutes 31) = Inr (Count 3)"
proof -
  let ?p = "token_policy (default_contest\<lparr>token_mode := TOKEN_MODE_FINITE\<rparr>)"
  have fin: "mode ?p = TOKEN_MODE_FINITE"
    by (simp add: token_policy_def)
  have nz: "genInterval ?p \<noteq> 0"
    by (simp add: token_policy_def default_contest_def minutes_def seconds_def)
  have params: "genInitial ?p = 2 \<and> genNumber ?p = 2 \<and> genInterval ?p = minutes 30 \<and>
      genMax ?p = None \<and> maxTotalNumber ?p = None"
    by (simp add: token_policy_def default_contest_def)
  from finite_available_tokens [OF fin nz, of 0 0 "[]" 0 0] params fin nz
  show ?thesis by blast
qed

text \<open>
  Claim C6. For a policy in disabled mode, whatever its other fields, the usage history,
  the contest start and the current time, \<open>availableTokens\<close> is 0 and \<open>canSpendNow\<close> is
  not allowed with reason \<open>Disabled\<close>.
\<close>

theorem disabled_policy_never_spends:
  assumes "mode p = TOKEN_MODE_DISABLED"
  shows "availableTokens p h cs now = Inr (Count 0) \<and>
         canSpendNow p h cs now = Inr (False, Disabled)"
  using assms by (simp add: availableTokens_def canSpendNow_def)

theorem disabled_policy_never_spends_witness:
  "mode (token_policy (default_contest\<lparr>token_mode := TOKEN_MODE_DISABLED\<rparr>)) =
     TOKEN_MODE_DISABLED \<and>
   availableTokens (token_policy (default_contest\<lparr>token_mode := TOKEN_MODE_DISABLED\<rparr>))
     [5, 7] 0 10 = Inr (Count 0) \<and>
   canSpendNow (token_policy (default_contest\<lparr>token_mode := TOKEN_MODE_DISABLED\<rparr>))
     [5, 7] 0 10 = Inr (False, Disabled)"
proof -
  let ?p = "token_policy (default_contest\<lparr>token_mode := TOKEN_MODE_DISABLED\<rparr>)"
  have off: "mode ?p = TOKEN_MODE_DISABLED"
    by (simp add: token_policy_def)
  from disabled_policy_never_spends [OF off, of "[5, 7]" 0 10] off
  show ?thesis by blast
qed

text \<open>
  Claim C7. A row that violates a configuration invariant (\<open>stop\<close> before \<open>start\<close>, a
  generation interval that is not positive, a negative minimum interval, a negative cap)
  is rejected when it is written. For a row that was accepted no query fails: \<open>phase\<close>
  returns one of its five values, and \<open>availableTokens\<close> and \<open>canSpendNow\<close> on the row's
  token policy return a result for every history, contest start and current time.
\<close>

theorem configuration_errors_only_at_construction:
  "(stop c < start c \<or> token_gen_interval c \<le> 0 \<or> token_min_interval c < 0 \<or>
    (\<exists>n. token_max_number c = Some n \<and> n < 0) \<or>
    (\<exists>m. token_gen_max c = Some m \<and> m < 0) \<longrightarrow>
      insert_contest c = Inl IntegrityError) \<and>
   (insert_contest c = Inr c' \<longrightarrow>
      c' = c \<and> phase c' t \<in> {- 1, 0, 1, 2, 3} \<and>
      (\<exists>n. availableTokens (token_policy c') h cs now = Inr n) \<and>
      (\<exists>v. canSpendNow (token_policy c') h cs now = Inr v))"
proof -
  have rejected: "insert_contest c = Inl IntegrityError"
    if "stop c < start c \<or> token_gen_interval c \<le> 0 \<or> token_min_interval c < 0 \<or>
        (\<exists>n. token_max_number c = Some n \<and> n < 0) \<or>
        (\<exists>m. token_gen_max c = Some m \<and> m < 0)"
    using that
    by (auto simp add: insert_contest_def check_constraints_def check_set_def seconds_def)
  have total: "c' = c \<and> phase c' t \<in> {- 1, 0, 1, 2, 3} \<and>
      (\<exists>n. availableTokens (token_policy c') h cs now = Inr n) \<and>
      (\<exists>v. canSpendNow (token_policy c') h cs now = Inr v)"
    if acc: "insert_contest c = Inr c'"
  proof -
    have ok: "check_constraints c" and same: "c' = c"
      using accepted_row [OF acc] by simp_all
    have "token_gen_interval c > 0"
      using ok by (simp add: check_constraints_def seconds_def)
    then have nz: "genInterval (token_policy c) \<noteq> 0"
      by (simp add: token_policy_def)
    have "phase c t \<in> {- 1, 0, 1, 2, 3}"
      using phase_values [of c t] by auto
    with same nz available_total [of "token_policy c" h cs now]
      canSpendNow_total [of "token_policy c" h cs now]
    show ?thesis by simp
  qed
  from rejected total show ?thesis by blast
qed

theorem configuration_errors_only_at_construction_witness:
  "stop (default_contest\<lparr>stop := 0\<rparr>) < start (default_contest\<lparr>stop := 0\<rparr>) \<and>
   insert_contest (default_contest\<lparr>stop := 0\<rparr>) = Inl IntegrityError \<and>
   insert_contest default_contest = Inr default_contest \<and>
   phase default_contest 5 \<in> {- 1, 0, 1, 2, 3} \<and>
   (\<exists>n. availableTokens (token_policy default_contest) [1, 2] 0 5 = Inr n) \<and>
   (\<exists>v. canSpendNow (token_policy default_contest) [1, 2] 0 5 = Inr v)"
proof -
  have bad: "stop (default_contest\<lparr>stop := 0\<rparr>) < start (default_contest\<lparr>stop := 0\<rparr>)"
    by (simp add: default_contest_def seconds_def)
  have good: "insert_contest default_contest = Inr default_contest"
    by (rule default_contest_accepted)
  from bad good
    configuration_errors_only_at_construction
      [of "default_contest\<lparr>stop := 0\<rparr>" default_contest 5 "[1, 2]" 0 5]
    configuration_errors_only_at_construction
      [of default_contest default_contest 5 "[1, 2]" 0 5]
  show ?thesis by blast
qed

text \<open>
  Claim C10. A row is accepted only if its token caps are stricter than non-negative:
  when \<open>token_gen_max\<close> is set it is strictly positive and at least \<open>token_gen_initial\<close>,
  and when \<open>token_max_number\<close> is set it is strictly positive. A cap of zero, or a
  \<open>token_gen_max\<close> below \<open>token_gen_initial\<close>, makes the write fail.
\<close>

theorem construction_requires_positive_caps:
  "(insert_contest c = Inr c' \<longrightarrow>
      (\<forall>m. token_gen_max c' = Some m \<longrightarrow> token_gen_initial c' \<le> m \<and> 0 < m) \<and>
      (\<forall>n. token_max_number c' = Some n \<longrightarrow> 0 < n)) \<and>
   (token_gen_max c = Some 0 \<or> token_max_number c = Some 0 \<or>
    (\<exists>m. token_gen_max c = Some m \<and> m < token_gen_initial c) \<longrightarrow>
      insert_contest c = Inl IntegrityError)"
proof -
  have caps: "(\<forall>m. token_gen_max c' = Some m \<longrightarrow> token_gen_initial c' \<le> m \<and> 0 < m) \<and>
      (\<forall>n. token_max_number c' = Some n \<longrightarrow> 0 < n)"
    if acc: "insert_contest c = Inr c'"
  proof -
    have ok: "check_constraints c" and same: "c' = c"
      using accepted_row [OF acc] by simp_all
    from ok have "check_set (token_gen_max c) (\<lambda>m. token_gen_initial c \<le> m)"
      and "check_set (token_gen_max c) (\<lambda>m. m > 0)"
      and "check_set (token_max_number c) (\<lambda>n. n > 0)"
      by (simp_all add: check_constraints_def)
    with same show ?thesis
      by (auto simp add: check_set_def)
  qed
  have zero: "insert_contest c = Inl IntegrityError"
    if "token_gen_max c = Some 0 \<or> token_max_number c = Some 0 \<or>
        (\<exists>m. token_gen_max c = Some m \<and> m < token_gen_initial c)"
    using that
    by (auto simp add: insert_contest_def check_constraints_def check_set_def)
  from caps zero show ?thesis by blast
qed

theorem construction_requires_positive_caps_witness:
  "insert_contest (default_contest\<lparr>token_max_number := Some 3, token_gen_max := Some 5\<rparr>) =
     Inr (default_contest\<lparr>token_max_number := Some 3, token_gen_max := Some 5\<rparr>) \<and>
   token_gen_initial (default_contest\<lparr>token_max_number := Some 3, token_gen_max := Some 5\<rparr>)
     \<le> 5 \<and>
   token_max_number (default_contest\<lparr>token_max_number := Some 0\<rparr>) = Some 0 \<and>
   insert_contest (default_contest\<lparr>token_max_number := Some 0\<rparr>) = Inl IntegrityError"
proof -
  let ?good = "default_contest\<lparr>token_max_number := Some 3, token_gen_max := Some 5\<rparr>"
  let ?bad = "default_contest\<lparr>token_max_number := Some 0\<rparr>"
  have acc: "insert_contest ?good = Inr ?good"
    by (simp add: insert_contest_def check_constraints_def check_set_def default_contest_def
        minutes_def seconds_def)
  have gm: "token_gen_max ?good = Some 5"
    by simp
  have zero: "token_max_number ?bad = Some 0"
    by simp
  from acc gm zero
    construction_requires_positive_caps [of ?good ?good]
    construction_requires_positive_caps [of ?bad ?bad]
  show ?thesis by blast
qed

end
